theory Spec2Isabelle
  imports Main
begin

section \<open>Python strings and errors\<close>

text \<open>
  A Python \<open>str\<close> is a sequence of Unicode code points, and \<open>len\<close>, indexing and
  slicing count code points. A character is therefore modelled as its code point, a
  natural number, and a string as the list of them. \<open>py\<close> embeds a literal.
\<close>

type_synonym pychar = nat
type_synonym pystr = "pychar list"

definition py :: "string \<Rightarrow> pystr" where
  "py s = map of_char s"

text \<open>The characters the program names: \<open>' '\<close>, \<open>'\n'\<close>, \<open>','\<close>, \<open>'<'\<close>, \<open>'>'\<close>,
  \<open>'('\<close>, \<open>')'\<close> and the arrow U+2192.\<close>

abbreviation (input) c_space :: pychar where "c_space \<equiv> 32"
abbreviation (input) c_newline :: pychar where "c_newline \<equiv> 10"
abbreviation (input) c_comma :: pychar where "c_comma \<equiv> 44"
abbreviation (input) c_lt :: pychar where "c_lt \<equiv> 60"
abbreviation (input) c_gt :: pychar where "c_gt \<equiv> 62"
abbreviation (input) c_lparen :: pychar where "c_lparen \<equiv> 40"
abbreviation (input) c_rparen :: pychar where "c_rparen \<equiv> 41"
abbreviation (input) c_arrow :: pychar where "c_arrow \<equiv> 8594"

text \<open>The exceptions the program can raise; \<open>ProcessingError\<close> carries its message.\<close>

datatype error =
    ValueError
  | AttributeError
  | IndexError
  | TypeError
  | OSError
  | UnicodeEncodeError
  | ProcessingError pystr

subsection \<open>String operations of the Python runtime\<close>

text \<open>\<open>s[a:b]\<close> for non-negative \<open>a\<close> and \<open>b\<close>: empty when \<open>b \<le> a\<close>, clipped at the end.\<close>

definition slice :: "nat \<Rightarrow> nat \<Rightarrow> 'a list \<Rightarrow> 'a list" where
  "slice a b s = take (b - a) (drop a s)"

text \<open>\<open>s.index(c)\<close>: the first position of \<open>c\<close>; \<open>None\<close> stands for the
  \<open>ValueError\<close> Python raises when there is none.\<close>

fun index :: "pystr \<Rightarrow> pychar \<Rightarrow> nat option" where
  "index [] c = None"
| "index (x # xs) c = (if x = c then Some 0 else map_option Suc (index xs c))"

definition startswith :: "pystr \<Rightarrow> pystr \<Rightarrow> bool" where
  "startswith s p = (take (length p) s = p)"

definition endswith :: "pystr \<Rightarrow> pystr \<Rightarrow> bool" where
  "endswith s p = (length p \<le> length s \<and> drop (length s - length p) s = p)"

text \<open>\<open>sub in s\<close> for strings.\<close>

fun contains :: "pystr \<Rightarrow> pystr \<Rightarrow> bool" where
  "contains sub [] = (sub = [])"
| "contains sub (c # cs) = (startswith (c # cs) sub \<or> contains sub cs)"

text \<open>\<open>sep.join(xs)\<close>.\<close>

fun join :: "pystr \<Rightarrow> pystr list \<Rightarrow> pystr" where
  "join sep [] = []"
| "join sep [x] = x"
| "join sep (x # y # ys) = x @ sep @ join sep (y # ys)"

text \<open>\<open>s.split(', ')\<close>: the pieces between the non-overlapping occurrences of the
  separator, found left to right; \<open>acc\<close> holds the current piece reversed.\<close>

fun split_comma_space :: "pystr \<Rightarrow> pystr \<Rightarrow> pystr list" where
  "split_comma_space acc [] = [rev acc]"
| "split_comma_space acc [c] = [rev (c # acc)]"
| "split_comma_space acc (c # d # cs) =
     (if c = c_comma \<and> d = c_space then rev acc # split_comma_space [] cs
      else split_comma_space (c # acc) (d # cs))"

text \<open>\<open>s.strip()\<close> removes the characters for which \<open>str.isspace\<close> holds from both
  ends.\<close>

definition isspace :: "pychar \<Rightarrow> bool" where
  "isspace c = ((9 \<le> c \<and> c \<le> 13) \<or> (28 \<le> c \<and> c \<le> 32) \<or> c = 133 \<or> c = 160
     \<or> c = 5760 \<or> (8192 \<le> c \<and> c \<le> 8202) \<or> c = 8232 \<or> c = 8233 \<or> c = 8239
     \<or> c = 8287 \<or> c = 12288)"

definition strip :: "pystr \<Rightarrow> pystr" where
  "strip s = rev (dropWhile isspace (rev (dropWhile isspace s)))"

section \<open>Converter\<close>

subsection \<open>type\_conversion\<close>

text \<open>The dictionary \<open>general_conversion\<close>, and the lookup with identity fallback
  \<open>general_conversion[i] if i in general_conversion else i\<close>.\<close>

definition general_conversion :: "pystr \<rightharpoonup> pystr" where
  "general_conversion =
     [py ''String'' \<mapsto> py ''str'',
      py ''Integer'' \<mapsto> py ''int'',
      py ''Map'' \<mapsto> py ''Dict'',
      py ''boolean'' \<mapsto> py ''bool'',
      py ''Boolean'' \<mapsto> py ''bool'']"

definition convert_or_keep :: "pystr \<Rightarrow> pystr" where
  "convert_or_keep i = (case general_conversion i of Some v \<Rightarrow> v | None \<Rightarrow> i)"

text \<open>\<open>vartype[vartype.index('<') + 1:vartype.index('>')]\<close>; \<open>None\<close> when either
  \<open>index\<close> raises \<open>ValueError\<close>.\<close>

definition bracket_content :: "pystr \<Rightarrow> pystr option" where
  "bracket_content vartype =
     (case index vartype c_lt of
        None \<Rightarrow> None
      | Some i \<Rightarrow>
          (case index vartype c_gt of
             None \<Rightarrow> None
           | Some j \<Rightarrow> Some (slice (i + 1) j vartype)))"

text \<open>The \<open>Map\<close> branch lets the \<open>ValueError\<close> escape; the \<open>List\<close> branch catches
  it and returns \<open>'list'\<close>.\<close>

definition type_conversion :: "pystr \<Rightarrow> error + pystr" where
  "type_conversion vartype =
     (if startswith vartype (py ''Map'') then
        (case bracket_content vartype of
           None \<Rightarrow> Inl ValueError
         | Some inner \<Rightarrow>
             Inr (py ''Dict['' @
                  join (py '', '') (map convert_or_keep (split_comma_space [] inner)) @
                  py '']''))
      else if startswith vartype (py ''List'') then
        (case bracket_content vartype of
           None \<Rightarrow> Inr (py ''list'')
         | Some attr \<Rightarrow> Inr (py ''List['' @ convert_or_keep attr @ py '']''))
      else if endswith vartype (py ''[]'') then
        Inr (py ''List['' @ convert_or_keep (take (length vartype - 2) vartype) @ py '']'')
      else Inr (convert_or_keep vartype))"

subsection \<open>The regular expressions of handle\_params and convert\<close>

text \<open>
  \<open>\w\<close> in a \<open>str\<close> pattern matches \<open>[a-zA-Z0-9_]\<close> and every non-ASCII alphanumeric
  character. The table of the latter belongs to the Python runtime, not to this
  program, and is the parameter \<open>uw\<close> of everything that matches \<open>\w\<close>.
\<close>

definition ascii_word :: "pychar \<Rightarrow> bool" where
  "ascii_word c = ((48 \<le> c \<and> c \<le> 57) \<or> (65 \<le> c \<and> c \<le> 90) \<or> c = 95 \<or> (97 \<le> c \<and> c \<le> 122))"

definition is_word :: "(pychar \<Rightarrow> bool) \<Rightarrow> pychar \<Rightarrow> bool" where
  "is_word uw c = (if c < 128 then ascii_word c else uw c)"

text \<open>\<open>$\<close> matches at the end of the string and just before a newline that ends it.\<close>

definition at_end :: "pystr \<Rightarrow> bool" where
  "at_end r = (r = [] \<or> r = [c_newline])"

text \<open>A greedy quantifier tries its longest extent first and gives characters back
  one at a time: \<open>backtrack f n\<close> is the first success of \<open>f\<close> among \<open>n, n - 1, ..., 1\<close>.\<close>

fun backtrack :: "(nat \<Rightarrow> 'a option) \<Rightarrow> nat \<Rightarrow> 'a option" where
  "backtrack f 0 = None"
| "backtrack f (Suc e) = (case f (Suc e) of Some r \<Rightarrow> Some r | None \<Rightarrow> backtrack f e)"

text \<open>
  \<open>(.+) (\w+)$\<close> tried at the start of \<open>s\<close>: \<open>.+\<close> takes \<open>e\<close> characters other than a
  newline, then come a space, a run of word characters and \<open>$\<close>. The run is the
  maximal one: after a shorter run the next character is a word character, where
  \<open>$\<close> fails. The result is the pair of groups.
\<close>

definition param_tail :: "(pychar \<Rightarrow> bool) \<Rightarrow> pystr \<Rightarrow> nat \<Rightarrow> (pystr \<times> pystr) option" where
  "param_tail uw s e =
     (if e < length s \<and> s ! e = c_space then
        (let rest = drop (Suc e) s; run = takeWhile (is_word uw) rest
         in if run \<noteq> [] \<and> at_end (dropWhile (is_word uw) rest)
            then Some (take e s, run) else None)
      else None)"

definition match_param_at :: "(pychar \<Rightarrow> bool) \<Rightarrow> pystr \<Rightarrow> (pystr \<times> pystr) option" where
  "match_param_at uw s =
     backtrack (param_tail uw s) (length (takeWhile (\<lambda>c. c \<noteq> c_newline) s))"

text \<open>\<open>re.search\<close> tries the start positions from left to right.\<close>

fun search_param :: "(pychar \<Rightarrow> bool) \<Rightarrow> pystr \<Rightarrow> (pystr \<times> pystr) option" where
  "search_param uw [] = None"
| "search_param uw (c # cs) =
     (case match_param_at uw (c # cs) of
        Some r \<Rightarrow> Some r
      | None \<Rightarrow> search_param uw cs)"

text \<open>\<open>(\w+)\(\<close> tried at the start of \<open>s\<close>: the maximal run of word characters, then
  \<open>(\<close> (after a shorter run the next character is a word character, not \<open>(\<close>).
  \<open>search_name uw i s\<close> returns the start of the match, counted from \<open>i\<close>, and group 1.\<close>

definition match_name_at :: "(pychar \<Rightarrow> bool) \<Rightarrow> pystr \<Rightarrow> pystr option" where
  "match_name_at uw s =
     (let run = takeWhile (is_word uw) s
      in if run \<noteq> [] \<and> startswith (dropWhile (is_word uw) s) [c_lparen]
         then Some run else None)"

fun search_name :: "(pychar \<Rightarrow> bool) \<Rightarrow> nat \<Rightarrow> pystr \<Rightarrow> (nat \<times> pystr) option" where
  "search_name uw i [] = None"
| "search_name uw i (c # cs) =
     (case match_name_at uw (c # cs) of
        Some nm \<Rightarrow> Some (i, nm)
      | None \<Rightarrow> search_name uw (Suc i) cs)"

subsection \<open>handle\_params\<close>

definition rename :: "pystr \<Rightarrow> pystr" where
  "rename paramname =
     (if paramname = py ''str'' then py ''string''
      else if paramname = py ''len'' then py ''length''
      else if paramname = py ''map'' then py ''mapping''
      else paramname)"

text \<open>The body of the boundary branch for one raw parameter: the regular expression
  (\<open>.groups()\<close> of no match raises \<open>AttributeError\<close>), the renaming and the type.\<close>

definition render_param :: "(pychar \<Rightarrow> bool) \<Rightarrow> pystr \<Rightarrow> error + pystr" where
  "render_param uw param =
     (case search_param uw param of
        None \<Rightarrow> Inl AttributeError
      | Some (paramtype, paramname) \<Rightarrow>
          (case type_conversion paramtype of
             Inl e \<Rightarrow> Inl e
           | Inr t \<Rightarrow> Inr (rename paramname @ py '': '' @ t)))"

text \<open>
  The \<open>for\<close> loop over \<open>enumerate(paramstr)\<close>, with the loop variables
  \<open>lcarrot_count\<close>, \<open>rcarrot_count\<close>, \<open>split_idx\<close> and \<open>params\<close> as arguments. The
  branches are the source's \<open>if\<close>/\<open>elif\<close> chain, in its order.
\<close>

fun handle_loop ::
  "(pychar \<Rightarrow> bool) \<Rightarrow> pystr \<Rightarrow> (nat \<times> pychar) list \<Rightarrow> nat \<Rightarrow> nat \<Rightarrow> nat \<Rightarrow> pystr list
     \<Rightarrow> error + pystr list" where
  "handle_loop uw paramstr [] lcarrot_count rcarrot_count split_idx params = Inr params"
| "handle_loop uw paramstr ((idx, i) # rest) lcarrot_count rcarrot_count split_idx params =
     (if i = c_lt then
        handle_loop uw paramstr rest (lcarrot_count + 1) rcarrot_count split_idx params
      else if i = c_gt then
        handle_loop uw paramstr rest lcarrot_count (rcarrot_count + 1) split_idx params
      else if (i = c_comma \<and> lcarrot_count = rcarrot_count) \<or> idx = length paramstr - 1 then
        (case render_param uw
                (slice split_idx (idx + (if idx = length paramstr - 1 then 1 else 0)) paramstr) of
           Inl e \<Rightarrow> Inl e
         | Inr p \<Rightarrow>
             handle_loop uw paramstr rest lcarrot_count rcarrot_count (idx + 2) (params @ [p]))
      else handle_loop uw paramstr rest lcarrot_count rcarrot_count split_idx params)"

definition handle_params :: "(pychar \<Rightarrow> bool) \<Rightarrow> pystr \<Rightarrow> error + pystr list" where
  "handle_params uw paramstr = handle_loop uw paramstr (enumerate 0 paramstr) 0 0 0 []"

subsection \<open>The constructor and convert\<close>

text \<open>\<open>Converter.__init__\<close>: the field \<open>dec\<close> is
  \<open>dec[dec.index(' ') + 1:dec.index(')') + 1]\<close>.\<close>

definition Converter :: "pystr \<Rightarrow> error + pystr" where
  "Converter dec =
     (case index dec c_space of
        None \<Rightarrow> Inl ValueError
      | Some i \<Rightarrow>
          (case index dec c_rparen of
             None \<Rightarrow> Inl ValueError
           | Some j \<Rightarrow> Inr (slice (i + 1) (j + 1) dec)))"

text \<open>\<open>Converter.convert\<close> on the field \<open>self.dec\<close>. \<open>namesearch.start()\<close> on no match
  raises \<open>AttributeError\<close>.\<close>

definition convert :: "(pychar \<Rightarrow> bool) \<Rightarrow> pystr \<Rightarrow> error + pystr" where
  "convert uw self_dec =
     (case search_name uw 0 self_dec of
        None \<Rightarrow> Inl AttributeError
      | Some (start, name) \<Rightarrow>
          (case type_conversion (strip (take start self_dec)) of
             Inl e \<Rightarrow> Inl e
           | Inr rettype \<Rightarrow>
               (case index self_dec c_lparen of
                  None \<Rightarrow> Inl ValueError
                | Some i \<Rightarrow>
                    (case index self_dec c_rparen of
                       None \<Rightarrow> Inl ValueError
                     | Some j \<Rightarrow>
                         (case handle_params uw (slice (i + 1) j self_dec) of
                            Inl e \<Rightarrow> Inl e
                          | Inr params \<Rightarrow>
                              Inr (py ''def '' @ name @ py ''('' @ join (py '', '') params @
                                   py '') -> '' @ rettype @ py '':\<newline>    pass''))))))"

text \<open>\<open>Converter(decstr).convert()\<close>, as \<open>Problem._process\<close> calls it.\<close>

definition Converter_convert :: "(pychar \<Rightarrow> bool) \<Rightarrow> pystr \<Rightarrow> error + pystr" where
  "Converter_convert uw dec =
     (case Converter dec of Inl e \<Rightarrow> Inl e | Inr self_dec \<Rightarrow> convert uw self_dec)"

section \<open>Problem\<close>

record problem =
  p_url :: pystr
  p_name :: "pystr option"
  p_text :: "pystr option"

text \<open>\<open>Problem.__init__\<close>.\<close>

definition Problem :: "pystr \<Rightarrow> problem" where
  "Problem u = \<lparr>p_url = u, p_name = None, p_text = None\<rparr>"

subsection \<open>make\_asserts\<close>

text \<open>
  \<open>re.sub(r'\<rightarrow>|true|false', lambda x: conversions[x[0]], i)\<close>: one pass from left to
  right; at each position the alternatives are tried in the order written, a match
  is replaced and the scan goes on after it, any other character is copied.
\<close>

function re_sub :: "pystr \<Rightarrow> pystr" where
  "re_sub [] = []"
| "re_sub (c # cs) =
     (if c = c_arrow then py ''=='' @ re_sub cs
      else if startswith (c # cs) (py ''true'') then py ''True'' @ re_sub (drop 3 cs)
      else if startswith (c # cs) (py ''false'') then py ''False'' @ re_sub (drop 4 cs)
      else c # re_sub cs)"
  by pat_completeness auto
termination
  by (relation "measure length") auto

definition make_asserts :: "pystr list \<Rightarrow> pystr" where
  "make_asserts asserts =
     py ''if __name__ == '__main__':'' @
     concat (map (\<lambda>i. py ''\<newline>    assert '' @ i) (map re_sub asserts))"

subsection \<open>The docstring loop of \_process\<close>

text \<open>
  The \<open>while\<close> loop, with the loop variables \<open>idx1\<close>, \<open>idx2\<close>, \<open>lettercount\<close> and
  \<open>docstringwrap\<close> as arguments.
\<close>

function wrap_loop :: "pystr \<Rightarrow> nat \<Rightarrow> nat \<Rightarrow> nat \<Rightarrow> pystr list \<Rightarrow> pystr list" where
  "wrap_loop docstring idx1 idx2 lettercount docstringwrap =
     (if idx2 < length docstring then
        (if (lettercount > 81 \<and> docstring ! idx2 = c_space) \<or> idx2 = length docstring - 1 then
           wrap_loop docstring (idx2 + 1) (idx2 + 1) 1
             (docstringwrap @
              [slice idx1 (idx2 + (if idx2 = length docstring - 1 then 1 else 0)) docstring])
         else wrap_loop docstring idx1 (idx2 + 1) (lettercount + 1) docstringwrap)
      else docstringwrap)"
  by pat_completeness auto
termination
  by (relation "measure (\<lambda>(d, i1, i2, lc, w). length d - i2)") auto

declare wrap_loop.simps [simp del]

definition docstringwrap :: "pystr \<Rightarrow> pystr list" where
  "docstringwrap docstring = wrap_loop docstring 0 0 0 []"

definition docstring_block :: "pystr \<Rightarrow> pystr" where
  \<open>docstring_block docstring =
     py ''"""\<newline>'' @ join (py ''\<newline>'') (docstringwrap docstring) @ py ''\<newline>"""''\<close>

subsection \<open>The imports and the text of \_process\<close>

definition imports_names :: "pystr \<Rightarrow> pystr list" where
  "imports_names decstr =
     (if contains (py ''List'') decstr then [py ''List''] else []) @
     (if contains (py ''Dict'') decstr then [py ''Dict''] else [])"

definition imports_line :: "pystr \<Rightarrow> pystr" where
  "imports_line decstr =
     (if imports_names decstr \<noteq> []
      then py ''from typing import '' @ join (py '', '') (imports_names decstr) @ py ''\<newline>''
      else [])"

text \<open>\<open>f'{docstring}\n{imports}\n\n{decstr}\n\n\n{asserts}\n'\<close>.\<close>

definition artifact_text :: "pystr \<Rightarrow> pystr \<Rightarrow> pystr \<Rightarrow> pystr" where
  "artifact_text docstring decstr asserts =
     docstring @ py ''\<newline>'' @ imports_line decstr @ py ''\<newline>\<newline>'' @ decstr @
     py ''\<newline>\<newline>\<newline>'' @ asserts @ py ''\<newline>''"

subsection \<open>\_process, process and async\_process\<close>

text \<open>
  What \<open>_process\<close> reads from the page through BeautifulSoup, which is not part of
  this program: the texts of the \<open>span\<close> elements of class \<open>h2\<close>, the text of the
  element with id \<open>ace_div\<close>, the text nodes that contain an arrow, and the text of
  the \<open>p\<close> element of class \<open>max2\<close>. \<open>find\<close> returns \<open>None\<close> when there is no such
  element. The parser is the parameter \<open>parse\<close>.
\<close>

record soup =
  h2_spans :: "pystr list"
  ace_div :: "pystr option"
  arrow_texts :: "pystr list"
  max2 :: "pystr option"

text \<open>\<open>Problem._process\<close>: the exception raised, if any, and the object afterwards.
  The name is assigned before anything else can fail.\<close>

definition private_process ::
  "(pychar \<Rightarrow> bool) \<Rightarrow> (pystr \<Rightarrow> soup) \<Rightarrow> problem \<Rightarrow> pystr \<Rightarrow> error option \<times> problem" where
  "private_process uw parse self response_text =
     (let sp = parse response_text in
      if h2_spans sp = [] then (Some IndexError, self)
      else
        (let self1 = self\<lparr>p_name := Some (last (h2_spans sp))\<rparr> in
         case ace_div sp of
           None \<Rightarrow> (Some AttributeError, self1)
         | Some dec \<Rightarrow>
             (case Converter_convert uw dec of
                Inl e \<Rightarrow> (Some e, self1)
              | Inr decstr \<Rightarrow>
                  (case max2 sp of
                     None \<Rightarrow> (Some AttributeError, self1)
                   | Some doc \<Rightarrow>
                       (None,
                        self1\<lparr>p_text :=
                          Some (artifact_text (docstring_block (strip doc)) decstr
                                  (make_asserts (arrow_texts sp)))\<rparr>)))))"

text \<open>
  \<open>Problem.process\<close> and \<open>Problem.async_process\<close>. The network is a function from a
  URL to the response text or the exception of the request (\<open>requests.get\<close> in the
  one, \<open>session.get\<close> in the other), and the list of the URLs requested so far is
  part of the state. Both return \<open>None\<close>; the result is the exception raised, if any,
  the object and the requests afterwards.
\<close>

definition process ::
  "(pychar \<Rightarrow> bool) \<Rightarrow> (pystr \<Rightarrow> error + pystr) \<Rightarrow> (pystr \<Rightarrow> soup) \<Rightarrow> problem \<Rightarrow> pystr list
     \<Rightarrow> error option \<times> problem \<times> pystr list" where
  "process uw requests_get parse self requested =
     (if p_text self \<noteq> None then (None, self, requested)
      else
        (case requests_get (p_url self) of
           Inl e \<Rightarrow> (Some e, self, requested @ [p_url self])
         | Inr restext \<Rightarrow>
             (let (e, self') = private_process uw parse self restext
              in (e, self', requested @ [p_url self]))))"

definition async_process ::
  "(pychar \<Rightarrow> bool) \<Rightarrow> (pystr \<Rightarrow> error + pystr) \<Rightarrow> (pystr \<Rightarrow> soup) \<Rightarrow> problem \<Rightarrow> pystr list
     \<Rightarrow> error option \<times> problem \<times> pystr list" where
  "async_process uw session_get parse self requested =
     (if p_text self \<noteq> None then (None, self, requested)
      else
        (case session_get (p_url self) of
           Inl e \<Rightarrow> (Some e, self, requested @ [p_url self])
         | Inr restext \<Rightarrow>
             (let (e, self') = private_process uw parse self restext
              in (e, self', requested @ [p_url self]))))"

section \<open>CategoryPage\<close>

record category =
  cat_url :: pystr
  cat_name :: pystr
  cat_problems :: "problem list"
  cat_processed :: bool

text \<open>\<open>os.path.join\<close> on POSIX: a component that starts with \<open>/\<close> discards what came
  before it.\<close>

definition join2 :: "pystr \<Rightarrow> pystr \<Rightarrow> pystr" where
  "join2 a b =
     (if startswith b (py ''/'') then b
      else if a = [] \<or> endswith a (py ''/'') then a @ b
      else a @ py ''/'' @ b)"

definition os_path_join :: "pystr \<Rightarrow> pystr list \<Rightarrow> pystr" where
  "os_path_join a ps = foldl join2 a ps"

text \<open>\<open>f'{prob.name}'\<close>: \<open>None\<close> is formatted as \<open>'None'\<close>.\<close>

definition format_name :: "pystr option \<Rightarrow> pystr" where
  "format_name n = (case n of None \<Rightarrow> py ''None'' | Some s \<Rightarrow> s)"

text \<open>
  The file system is a map from paths to contents. Whether the operating system
  lets a path be opened for writing is the parameter \<open>openable\<close>; \<open>open\<close> raises
  \<open>OSError\<close> otherwise. Mode \<open>w+\<close> truncates the file, and \<open>f.write(None)\<close> raises
  \<open>TypeError\<close> with the file left empty. The file is opened with
  \<open>encoding='utf8'\<close>: \<open>f.write\<close> encodes the whole text before it writes any of
  it, and a text that holds a surrogate code point (U+D800 to U+DFFF) raises
  \<open>UnicodeEncodeError\<close>, again with the file left empty.
\<close>

type_synonym filesystem = "pystr \<rightharpoonup> pystr"

definition is_surrogate :: "pychar \<Rightarrow> bool" where
  "is_surrogate c = (55296 \<le> c \<and> c \<le> 57343)"

fun write_problems ::
  "(pystr \<Rightarrow> bool) \<Rightarrow> pystr \<Rightarrow> problem list \<Rightarrow> filesystem \<Rightarrow> error option \<times> filesystem" where
  "write_problems openable nm [] fs = (None, fs)"
| "write_problems openable nm (prob # rest) fs =
     (let path = os_path_join (py ''.'') [nm, format_name (p_name prob) @ py ''.py''] in
      if \<not> openable path then (Some OSError, fs)
      else
        (case p_text prob of
           None \<Rightarrow> (Some TypeError, fs(path \<mapsto> []))
         | Some t \<Rightarrow>
             if list_ex is_surrogate t then (Some UnicodeEncodeError, fs(path \<mapsto> []))
             else write_problems openable nm rest (fs(path \<mapsto> t))))"

text \<open>
  \<open>CategoryPage.write\<close>: the failed \<open>assert\<close> is turned into \<open>ProcessingError\<close>
  before the loop. An \<open>assert\<close> statement is executed only when \<open>__debug__\<close> is
  true; the interpreter started with \<open>-O\<close> compiles it away, and the \<open>try\<close> block
  is then empty. \<open>debug\<close> is the value of \<open>__debug__\<close>.
\<close>

definition CategoryPage_write ::
  "bool \<Rightarrow> (pystr \<Rightarrow> bool) \<Rightarrow> category \<Rightarrow> filesystem \<Rightarrow> error option \<times> filesystem" where
  "CategoryPage_write debug openable self fs =
     (if debug \<and> \<not> cat_processed self
      then (Some (ProcessingError (cat_name self @ py '' has not been processed'')), fs)
      else write_problems openable (cat_name self) (cat_problems self) fs)"

section \<open>Concrete inputs\<close>

text \<open>A runtime without non-ASCII word characters, an operating system that lets
  every path be opened, a network that is down and a parser that finds nothing.\<close>

definition no_unicode_word :: "pychar \<Rightarrow> bool" where
  "no_unicode_word c = False"

definition always_openable :: "pystr \<Rightarrow> bool" where
  "always_openable path = True"

definition offline :: "pystr \<Rightarrow> error + pystr" where
  "offline u = Inl OSError"

definition empty_page :: "pystr \<Rightarrow> soup" where
  "empty_page response_text = \<lparr>h2_spans = [], ace_div = None, arrow_texts = [], max2 = None\<rparr>"

definition unprocessed_category :: category where
  "unprocessed_category =
     \<lparr>cat_url = py ''https://codingbat.com/java/Warmup-1'', cat_name = py ''Warmup-1'',
      cat_problems = [Problem (py ''https://codingbat.com/prob/p187868'')],
      cat_processed = False\<rparr>"

definition processed_problem :: problem where
  "processed_problem =
     \<lparr>p_url = py ''https://codingbat.com/prob/p187868'', p_name = Some (py ''sleepIn''),
      p_text = Some (py ''pass'')\<rparr>"

text \<open>A category whose \<open>process\<close> was interrupted after a problem had been
  processed: \<open>problems\<close> is set and \<open>processed\<close> is still false.\<close>

definition half_processed_category :: category where
  "half_processed_category =
     \<lparr>cat_url = py ''https://codingbat.com/java/Warmup-1'', cat_name = py ''Warmup-1'',
      cat_problems = [processed_problem], cat_processed = False\<rparr>"

section \<open>The specification's notions\<close>

text \<open>
  The token shapes the specification names: a \<open>Map<K, V>\<close>-syntax generic, and a
  \<open>List<T>\<close>-syntax generic or the bare \<open>List\<close>.
\<close>

definition map_syntax :: "pystr \<Rightarrow> bool" where
  "map_syntax t = (startswith t (py ''Map<'') \<and> endswith t (py ''>''))"

definition list_syntax :: "pystr \<Rightarrow> bool" where
  "list_syntax t = (t = py ''List'' \<or> (startswith t (py ''List<'') \<and> endswith t (py ''>'')))"

text \<open>
  The guard line, and what a well-formed block needs at least: in Python the
  header of an \<open>if\<close> statement must be followed by a suite, so a block whose
  header is followed by nothing but white space is rejected by the parser
  (\<open>expected an indented block\<close>).
\<close>

definition guard_line :: pystr where
  "guard_line = py ''if __name__ == '__main__':''"

definition has_suite :: "pystr \<Rightarrow> bool" where
  "has_suite block =
     (startswith block guard_line \<and> strip (drop (length guard_line) block) \<noteq> [])"

text \<open>
  Textual substitution as \<open>str.replace\<close> does it, for a non-empty \<open>old\<close>: every
  occurrence found from left to right without overlap is replaced. The
  specification's substitutions on an example are three of them in turn.
\<close>

function replace_all :: "pystr \<Rightarrow> pystr \<Rightarrow> pystr \<Rightarrow> pystr" where
  "replace_all old new [] = []"
| "replace_all old new (c # cs) =
     (if old \<noteq> [] \<and> startswith (c # cs) old
      then new @ replace_all old new (drop (length old - 1) cs)
      else c # replace_all old new cs)"
  by pat_completeness auto
termination
  by (relation "measure (\<lambda>(old, new, s). length s)") auto

definition substitutions :: "pystr \<Rightarrow> pystr" where
  "substitutions i =
     replace_all (py ''false'') (py ''False'')
       (replace_all (py ''true'') (py ''True'')
          (replace_all [c_arrow] (py ''=='') i))"

text \<open>
  The layout of the artifact as a sequence of lines, each ended by a newline: the
  docstring block, the import lines, \<open>k\<close> blank lines, the stub, two blank lines
  and the assertion block. The import line is the one the specification describes.
\<close>

definition import_lines :: "pystr \<Rightarrow> pystr list" where
  "import_lines decstr =
     (if contains (py ''List'') decstr \<and> contains (py ''Dict'') decstr
        then [py ''from typing import List, Dict'']
      else if contains (py ''List'') decstr then [py ''from typing import List'']
      else if contains (py ''Dict'') decstr then [py ''from typing import Dict'']
      else [])"

definition layout :: "nat \<Rightarrow> pystr \<Rightarrow> pystr list \<Rightarrow> pystr \<Rightarrow> pystr \<Rightarrow> pystr" where
  "layout k docstring imps decstr asserts =
     join (py ''\<newline>'')
       ([docstring] @ imps @ replicate k [] @ [decstr] @ [[], []] @ [asserts]) @
     py ''\<newline>''"

text \<open>
  The boundaries of \<open>handle_params\<close>, stated on the string alone: a position is a
  boundary when its character is neither \<open><\<close> nor \<open>>\<close> and it is either a comma
  with as many \<open><\<close> as \<open>>\<close> before it or the last position. \<open>render_cuts\<close> renders
  the pieces between given boundaries, each piece starting two characters after
  the boundary before it.
\<close>

definition count_char :: "pychar \<Rightarrow> pystr \<Rightarrow> nat" where
  "count_char c s = length (filter (\<lambda>x. x = c) s)"

definition boundary :: "pystr \<Rightarrow> nat \<Rightarrow> bool" where
  "boundary paramstr idx =
     (paramstr ! idx \<noteq> c_lt \<and> paramstr ! idx \<noteq> c_gt \<and>
      ((paramstr ! idx = c_comma \<and>
        count_char c_lt (take idx paramstr) = count_char c_gt (take idx paramstr))
       \<or> idx = length paramstr - 1))"

fun render_cuts :: "(pychar \<Rightarrow> bool) \<Rightarrow> pystr \<Rightarrow> nat \<Rightarrow> nat list \<Rightarrow> error + pystr list" where
  "render_cuts uw paramstr split_idx [] = Inr []"
| "render_cuts uw paramstr split_idx (idx # idxs) =
     (case render_param uw
             (slice split_idx (idx + (if idx = length paramstr - 1 then 1 else 0)) paramstr) of
        Inl e \<Rightarrow> Inl e
      | Inr p \<Rightarrow>
          (case render_cuts uw paramstr (idx + 2) idxs of
             Inl e \<Rightarrow> Inl e
           | Inr rest \<Rightarrow> Inr (p # rest)))"

text \<open>The words of a text: the pieces between its spaces, as \<open>s.split(' ')\<close> gives
  them.\<close>

fun split_space :: "pystr \<Rightarrow> pystr list" where
  "split_space [] = [[]]"
| "split_space (c # cs) =
     (if c = c_space then [] # split_space cs
      else (case split_space cs of [] \<Rightarrow> [[c]] | w # ws \<Rightarrow> (c # w) # ws))"

section \<open>Facts about the string operations\<close>

lemma startswith_Nil [simp]: "startswith s []"
  by (simp add: startswith_def)

lemma startswith_Cons_Cons [simp]: "startswith (x # s) (a # p) \<longleftrightarrow> x = a \<and> startswith s p"
  by (auto simp: startswith_def)

lemma startswith_Nil_Cons [simp]: "\<not> startswith [] (a # p)"
  by (simp add: startswith_def)

lemma startswith_Cons_decomp:
  "startswith (c # cs) (a # p) \<Longrightarrow> c # cs = a # p @ drop (length p) cs"
  by (simp add: startswith_def) (metis append_take_drop_id)

lemma index_None_iff: "index s c = None \<longleftrightarrow> c \<notin> set s"
  by (induction s) auto

lemma join_Cons: "xs \<noteq> [] \<Longrightarrow> join sep (x # xs) = x @ sep @ join sep xs"
  by (cases xs) auto

lemma is_word_special [simp]:
  "\<not> is_word uw c_space" "\<not> is_word uw c_lparen" "\<not> is_word uw c_rparen"
  "\<not> is_word uw c_newline"
  by (simp_all add: is_word_def ascii_word_def)

lemma index_first: "c \<notin> set a \<Longrightarrow> index (a @ c # b) c = Some (length a)"
  by (induction a) auto

lemma slice_middle: "slice (length a) (length a + length b) (a @ b @ c) = b"
  by (simp add: slice_def)

section \<open>The type table\<close>

text \<open>
  C2. \<open>type_conversion\<close> maps \<open>String\<close> to \<open>str\<close>, \<open>boolean\<close> to \<open>bool\<close>, \<open>int[]\<close> to
  \<open>List[int]\<close>, \<open>Map<String, Integer>\<close> to \<open>Dict[str, int]\<close>, \<open>List<String>\<close> to
  \<open>List[str]\<close> and the bare \<open>List\<close> to \<open>list\<close>.
\<close>

theorem type_conversion_table:
  "type_conversion (py ''String'') = Inr (py ''str'') \<and>
   type_conversion (py ''boolean'') = Inr (py ''bool'') \<and>
   type_conversion (py ''int[]'') = Inr (py ''List[int]'') \<and>
   type_conversion (py ''Map<String, Integer>'') = Inr (py ''Dict[str, int]'') \<and>
   type_conversion (py ''List<String>'') = Inr (py ''List[str]'') \<and>
   type_conversion (py ''List'') = Inr (py ''list'')"
  by (intro conjI; code_simp)

section \<open>Empty inputs\<close>

lemma endswith_append: "endswith (a @ p) p"
  by (simp add: endswith_def)

lemma has_suite_one_example: "has_suite (make_asserts [py ''f() '' @ [c_arrow] @ py '' 1''])"
  by code_simp

text \<open>
  C8. \<open>handle_params('')\<close> returns the empty list, not a list holding one empty
  parameter. \<open>make_asserts([])\<close> raises nothing and returns the guard line alone:
  an \<open>if\<close> header without a suite, which is not a well-formed block, and the text
  of a page without examples ends with it. The stub of \<open>convert\<close> is given the
  body \<open>pass\<close>; the guard is given none.
\<close>

theorem empty_inputs:
  "handle_params uw [] = Inr [] \<and>
   make_asserts [] = guard_line \<and>
   \<not> has_suite (make_asserts []) \<and>
   endswith (artifact_text docstring decstr (make_asserts [])) (guard_line @ py ''\<newline>'')"
proof (intro conjI)
  show "handle_params uw [] = Inr []"
    by (simp add: handle_params_def)
  show guard: "make_asserts [] = guard_line"
    by (simp add: make_asserts_def guard_line_def)
  show "\<not> has_suite (make_asserts [])"
    unfolding guard by (simp add: has_suite_def strip_def)
  have "artifact_text docstring decstr (make_asserts []) =
      (docstring @ py ''\<newline>'' @ imports_line decstr @ py ''\<newline>\<newline>'' @ decstr @
       py ''\<newline>\<newline>\<newline>'') @ (guard_line @ py ''\<newline>'')"
    unfolding guard by (simp add: artifact_text_def)
  then show "endswith (artifact_text docstring decstr (make_asserts []))
      (guard_line @ py ''\<newline>'')"
    by (simp only: endswith_append)
qed

section \<open>Writing a category\<close>

lemma write_problems_not_ProcessingError:
  "fst (write_problems openable nm ps fs) \<noteq> Some (ProcessingError msg)"
  by (induction ps arbitrary: fs) (auto simp: Let_def split: option.splits)

text \<open>
  With assertions enabled \<open>CategoryPage.write\<close> raises \<open>ProcessingError\<close> exactly
  when \<open>processed\<close> is false, and then it returns before the loop: the file system
  is the one it was given.
\<close>

lemma write_ProcessingError_debug:
  "((\<exists>msg. fst (CategoryPage_write True openable self fs) = Some (ProcessingError msg))
      \<longleftrightarrow> \<not> cat_processed self) \<and>
   (\<not> cat_processed self \<longrightarrow>
      CategoryPage_write True openable self fs =
        (Some (ProcessingError (cat_name self @ py '' has not been processed'')), fs))"
  by (simp add: CategoryPage_write_def write_problems_not_ProcessingError)

lemma write_no_ProcessingError_optimized:
  "fst (CategoryPage_write False openable self fs) \<noteq> Some (ProcessingError msg)"
  by (simp add: CategoryPage_write_def write_problems_not_ProcessingError)

text \<open>
  C9. The docstring of \<open>write\<close> says it raises when \<open>processed\<close> is false. The
  test is an \<open>assert\<close>: with assertions disabled, \<open>write\<close> on a category whose
  \<open>processed\<close> is false raises nothing and writes the file of its problem.
\<close>

theorem write_without_assert:
  "\<not> cat_processed half_processed_category \<and>
   CategoryPage_write False always_openable half_processed_category Map.empty =
     (None, [py ''./Warmup-1/sleepIn.py'' \<mapsto> py ''pass''])"
  by (simp add: CategoryPage_write_def half_processed_category_def processed_problem_def
      always_openable_def os_path_join_def join2_def format_name_def endswith_def
      is_surrogate_def py_def)

section \<open>Processing a problem twice\<close>

text \<open>
  C10. On a problem whose \<open>text\<close> is set, \<open>process\<close> and \<open>async_process\<close> return
  \<open>None\<close> at once: no request is made and \<open>url\<close>, \<open>name\<close> and \<open>text\<close> are what
  they were.
\<close>

theorem process_already_processed:
  "p_text self \<noteq> None \<Longrightarrow>
     process uw requests_get parse self requested = (None, self, requested) \<and>
     async_process uw session_get parse self requested = (None, self, requested)"
  by (simp add: process_def async_process_def)

theorem process_already_processed_witness:
  "p_text processed_problem \<noteq> None \<and>
   process no_unicode_word offline empty_page processed_problem [] =
     (None, processed_problem, []) \<and>
   async_process no_unicode_word offline empty_page processed_problem [] =
     (None, processed_problem, [])"
  using process_already_processed
          [of processed_problem no_unicode_word offline empty_page "[]" offline]
  by (simp add: processed_problem_def)

section \<open>Tokens outside the table\<close>

text \<open>
  C7, as amended. The branches of \<open>type_conversion\<close> test prefixes: a token that
  does not start with \<open>Map\<close> or with \<open>List\<close>, does not end with \<open>[]\<close> and is not a
  key of the table is returned unchanged. No error is raised on a token that does
  not start with \<open>Map\<close>, nor on one that holds both \<open><\<close> and \<open>>\<close>.
\<close>

theorem type_conversion_verbatim:
  "(\<not> startswith t (py ''Map'') \<or> (c_lt \<in> set t \<and> c_gt \<in> set t)
      \<longrightarrow> (\<exists>r. type_conversion t = Inr r)) \<and>
   (\<not> startswith t (py ''Map'') \<and> \<not> startswith t (py ''List'') \<and>
    \<not> endswith t (py ''[]'') \<and> general_conversion t = None
      \<longrightarrow> type_conversion t = Inr t)"
proof -
  have no_error: "\<exists>r. type_conversion t = Inr r" if "\<not> startswith t (py ''Map'')"
    using that by (simp add: type_conversion_def split: option.splits)
  have brackets: "\<exists>r. type_conversion t = Inr r" if "c_lt \<in> set t" "c_gt \<in> set t"
  proof -
    from that obtain i j where "index t c_lt = Some i" "index t c_gt = Some j"
      using index_None_iff by (metis not_Some_eq)
    then show ?thesis
      by (simp add: type_conversion_def bracket_content_def)
  qed
  have verbatim: "type_conversion t = Inr t"
    if "\<not> startswith t (py ''Map'')" "\<not> startswith t (py ''List'')"
       "\<not> endswith t (py ''[]'')" "general_conversion t = None"
    using that by (simp add: type_conversion_def convert_or_keep_def)
  show ?thesis
    using no_error brackets verbatim by blast
qed

theorem type_conversion_verbatim_witness:
  "\<not> startswith (py ''double'') (py ''Map'') \<and> \<not> startswith (py ''double'') (py ''List'') \<and>
   \<not> endswith (py ''double'') (py ''[]'') \<and> general_conversion (py ''double'') = None \<and>
   type_conversion (py ''double'') = Inr (py ''double'')"
  using type_conversion_verbatim [of "py ''double''"]
  by (simp add: py_def startswith_def endswith_def general_conversion_def)

text \<open>
  C7 as stated fails: \<open>Listing\<close> is none of the shapes the claim excludes and is not
  in the table, and it is mapped to \<open>list\<close>; the table key \<open>Map\<close>, which starts with
  \<open>Map\<close> and has no \<open><\<close>, raises \<open>ValueError\<close>.
\<close>

theorem type_conversion_verbatim_counterexample:
  "\<not> map_syntax (py ''Listing'') \<and> \<not> list_syntax (py ''Listing'') \<and>
   \<not> endswith (py ''Listing'') (py ''[]'') \<and> general_conversion (py ''Listing'') = None \<and>
   type_conversion (py ''Listing'') = Inr (py ''list'') \<and> py ''list'' \<noteq> py ''Listing'' \<and>
   type_conversion (py ''Map'') = Inl ValueError"
  by (intro conjI; code_simp)

section \<open>The layout of the artifact\<close>

text \<open>
  C6, as amended. The text is the docstring block, the import line when the stub
  contains \<open>List\<close> or \<open>Dict\<close> (one line naming both, \<open>List\<close> first, when both occur),
  two blank lines, the stub, two blank lines, the assertion block and a final
  newline.
\<close>

theorem artifact_layout:
  "artifact_text docstring decstr asserts =
     layout 2 docstring (import_lines decstr) decstr asserts"
  by (simp add: artifact_text_def layout_def import_lines_def imports_line_def
      imports_names_def py_def numeral_2_eq_2)

text \<open>
  C6 as stated fails: with one blank line before the stub the text differs from
  the one \<open>_process\<close> builds.
\<close>

theorem artifact_layout_counterexample:
  "artifact_text (py ''D'') (py ''def f() -> List[int]:'') (py ''A'') =
     py ''D\<newline>from typing import List\<newline>\<newline>\<newline>def f() -> List[int]:\<newline>\<newline>\<newline>A\<newline>'' \<and>
   layout 1 (py ''D'') (import_lines (py ''def f() -> List[int]:'')) (py ''def f() -> List[int]:'')
       (py ''A'') =
     py ''D\<newline>from typing import List\<newline>\<newline>def f() -> List[int]:\<newline>\<newline>\<newline>A\<newline>'' \<and>
   artifact_text (py ''D'') (py ''def f() -> List[int]:'') (py ''A'') \<noteq>
     layout 1 (py ''D'') (import_lines (py ''def f() -> List[int]:'')) (py ''def f() -> List[int]:'')
       (py ''A'')"
  by (intro conjI; code_simp)

section \<open>The assertions\<close>

lemma py_words:
  "py ''=='' = [61, 61]"
  "py ''true'' = [116, 114, 117, 101]"
  "py ''True'' = [84, 114, 117, 101]"
  "py ''false'' = [102, 97, 108, 115, 101]"
  "py ''False'' = [70, 97, 108, 115, 101]"
  by (simp_all add: py_def)

lemma replace_arrow_Cons:
  "replace_all [c_arrow] new (c # cs) =
     (if c = c_arrow then new @ replace_all [c_arrow] new cs
      else c # replace_all [c_arrow] new cs)"
  by simp

lemma replace_true_Cons:
  "replace_all [116, 114, 117, 101] new (c # cs) =
     (if startswith (c # cs) [116, 114, 117, 101]
      then new @ replace_all [116, 114, 117, 101] new (drop 3 cs)
      else c # replace_all [116, 114, 117, 101] new cs)"
  by (simp add: numeral_3_eq_3)

lemma replace_false_Cons:
  "replace_all [102, 97, 108, 115, 101] new (c # cs) =
     (if startswith (c # cs) [102, 97, 108, 115, 101]
      then new @ replace_all [102, 97, 108, 115, 101] new (drop 4 cs)
      else c # replace_all [102, 97, 108, 115, 101] new cs)"
  by (simp add: eval_nat_numeral)

lemma startswith_replace_arrow:
  "c_arrow \<notin> set p \<Longrightarrow> 61 \<notin> set p \<Longrightarrow>
     startswith (replace_all [c_arrow] [61, 61] s) p = startswith s p"
proof (induction s arbitrary: p)
  case Nil
  then show ?case by simp
next
  case (Cons x s)
  show ?case
  proof (cases p)
    case Nil
    then show ?thesis by simp
  next
    case (Cons a p')
    with Cons.prems Cons.IH [of p'] show ?thesis
      by auto
  qed
qed

lemma startswith_replace_true:
  "116 \<notin> set p \<Longrightarrow> 84 \<notin> set p \<Longrightarrow>
     startswith (replace_all [116, 114, 117, 101] [84, 114, 117, 101] s) p = startswith s p"
proof (induction s arbitrary: p)
  case Nil
  then show ?case by simp
next
  case (Cons x s)
  show ?case
  proof (cases p)
    case Nil
    then show ?thesis by simp
  next
    case (Cons a p')
    with Cons.prems Cons.IH [of p'] show ?thesis
      by (auto simp: replace_true_Cons)
  qed
qed

lemma substitutions_Nil: "substitutions [] = []"
  by (simp add: substitutions_def)

lemma substitutions_arrow: "substitutions (c_arrow # cs) = py ''=='' @ substitutions cs"
  by (simp add: substitutions_def py_words replace_arrow_Cons replace_true_Cons
      replace_false_Cons)

lemma substitutions_true:
  assumes "startswith (c # cs) (py ''true'')"
  shows "substitutions (c # cs) = py ''True'' @ substitutions (drop 3 cs)"
proof -
  have len: "length [114, 117, 101 :: nat] = 3"
    by simp
  from assms have "c # cs = 116 # [114, 117, 101] @ drop (length [114, 117, 101 :: nat]) cs"
    unfolding py_words by (rule startswith_Cons_decomp)
  then have r: "c # cs = 116 # 114 # 117 # 101 # drop 3 cs"
    unfolding len by simp
  have "substitutions (116 # 114 # 117 # 101 # r) = py ''True'' @ substitutions r" for r
    by (simp add: substitutions_def py_words replace_arrow_Cons replace_true_Cons
        replace_false_Cons)
  with r show ?thesis by metis
qed

lemma substitutions_false:
  assumes "startswith (c # cs) (py ''false'')"
  shows "substitutions (c # cs) = py ''False'' @ substitutions (drop 4 cs)"
proof -
  have len: "length [97, 108, 115, 101 :: nat] = 4"
    by simp
  from assms
  have "c # cs = 102 # [97, 108, 115, 101] @ drop (length [97, 108, 115, 101 :: nat]) cs"
    unfolding py_words by (rule startswith_Cons_decomp)
  then have r: "c # cs = 102 # 97 # 108 # 115 # 101 # drop 4 cs"
    unfolding len by simp
  have "substitutions (102 # 97 # 108 # 115 # 101 # r) = py ''False'' @ substitutions r" for r
    by (simp add: substitutions_def py_words replace_arrow_Cons replace_true_Cons
        replace_false_Cons)
  with r show ?thesis by metis
qed

lemma substitutions_other:
  assumes "c \<noteq> c_arrow" "\<not> startswith (c # cs) (py ''true'')"
    "\<not> startswith (c # cs) (py ''false'')"
  shows "substitutions (c # cs) = c # substitutions cs"
proof -
  let ?X = "replace_all [c_arrow] [61, 61] cs"
  let ?Y = "replace_all [116, 114, 117, 101] [84, 114, 117, 101] ?X"
  have 1: "replace_all [c_arrow] [61, 61] (c # cs) = c # ?X"
    using assms(1) by (simp add: replace_arrow_Cons)
  have "startswith (c # ?X) [116, 114, 117, 101] = startswith (c # cs) [116, 114, 117, 101]"
    by (simp add: startswith_replace_arrow)
  then have 2: "replace_all [116, 114, 117, 101] [84, 114, 117, 101] (c # ?X) = c # ?Y"
    using assms(2) by (simp only: replace_true_Cons py_words if_False)
  have "startswith (c # ?Y) [102, 97, 108, 115, 101] = startswith (c # cs) [102, 97, 108, 115, 101]"
    by (simp add: startswith_replace_arrow startswith_replace_true)
  then have 3: "replace_all [102, 97, 108, 115, 101] [70, 97, 108, 115, 101] (c # ?Y) =
      c # replace_all [102, 97, 108, 115, 101] [70, 97, 108, 115, 101] ?Y"
    using assms(3) by (simp only: replace_false_Cons py_words if_False)
  show ?thesis
    unfolding substitutions_def py_words 1 2 3 ..
qed

lemma re_sub_substitutions: "re_sub i = substitutions i"
proof (induction i rule: re_sub.induct)
  case 1
  show ?case by (simp add: substitutions_Nil)
next
  case (2 c cs)
  show ?case
  proof (cases "c = c_arrow")
    case True
    with 2 show ?thesis by (simp add: substitutions_arrow)
  next
    case no_arrow: False
    show ?thesis
    proof (cases "startswith (c # cs) (py ''true'')")
      case True
      with 2 no_arrow show ?thesis by (simp add: substitutions_true)
    next
      case no_true: False
      show ?thesis
      proof (cases "startswith (c # cs) (py ''false'')")
        case True
        with 2 no_arrow no_true show ?thesis by (simp add: substitutions_false)
      next
        case False
        with 2 no_arrow no_true show ?thesis by (simp add: substitutions_other)
      qed
    qed
  qed
qed

text \<open>
  C5. \<open>make_asserts\<close> is the guard line followed by one \<open>assert\<close> line for each
  example, in the order given, and the example appears in its line with the arrow
  replaced by \<open>==\<close>, \<open>true\<close> by \<open>True\<close> and \<open>false\<close> by \<open>False\<close>, nothing else
  changed. The two examples of the specification give the two lines it names.
\<close>

theorem make_asserts_substitutions:
  "make_asserts asserts =
     py ''if __name__ == '__main__':'' @
     concat (map (\<lambda>i. py ''\<newline>    assert '' @ substitutions i) asserts) \<and>
   make_asserts
     [py ''max(1, 2) '' @ [c_arrow] @ py '' 2'', py ''isOdd(3) '' @ [c_arrow] @ py '' true''] =
     py ''if __name__ == '__main__':\<newline>    assert max(1, 2) == 2\<newline>    assert isOdd(3) == True''"
proof
  show "make_asserts asserts =
     py ''if __name__ == '__main__':'' @
     concat (map (\<lambda>i. py ''\<newline>    assert '' @ substitutions i) asserts)"
    by (simp add: make_asserts_def re_sub_substitutions comp_def)
  show "make_asserts
     [py ''max(1, 2) '' @ [c_arrow] @ py '' 2'', py ''isOdd(3) '' @ [c_arrow] @ py '' true''] =
     py ''if __name__ == '__main__':\<newline>    assert max(1, 2) == 2\<newline>    assert isOdd(3) == True''"
    by code_simp
qed

section \<open>The docstring lines\<close>

lemma drop_split_at:
  assumes "i1 \<le> i2" "i2 < length d"
  shows "drop i1 d = slice i1 i2 d @ [d ! i2] @ drop (i2 + 1) d"
proof -
  have "i2 - i1 < length (drop i1 d)"
    using assms by simp
  then have "drop i1 d =
      take (i2 - i1) (drop i1 d) @ (drop i1 d) ! (i2 - i1) # drop (Suc (i2 - i1)) (drop i1 d)"
    by (rule id_take_nth_drop)
  moreover have "(drop i1 d) ! (i2 - i1) = d ! i2"
    using assms by simp
  moreover have "drop (Suc (i2 - i1)) (drop i1 d) = drop (i2 + 1) d"
    using assms by simp
  ultimately show ?thesis
    by (simp add: slice_def)
qed

lemma wrap_loop_done: "\<not> i2 < length d \<Longrightarrow> wrap_loop d i1 i2 lc acc = acc"
  by (subst wrap_loop.simps) simp

lemma wrap_loop_lines:
  assumes "i1 \<le> i2" "i2 < length d" "lc \<le> i2 - i1 + 1"
  shows "\<exists>ls. wrap_loop d i1 i2 lc acc = acc @ ls \<and> ls \<noteq> [] \<and> [] \<notin> set ls \<and>
           join [c_space] ls = drop i1 d"
  using assms
proof (induction "length d - i2" arbitrary: i1 i2 lc acc rule: less_induct)
  case less
  show ?case
  proof (cases "i2 = length d - 1")
    case True
    then have "wrap_loop d i1 i2 lc acc =
        wrap_loop d (i2 + 1) (i2 + 1) 1 (acc @ [slice i1 (i2 + 1) d])"
      using less.prems by (subst wrap_loop.simps) simp
    also have "\<dots> = acc @ [slice i1 (i2 + 1) d]"
      using True less.prems by (simp add: wrap_loop_done)
    finally have "wrap_loop d i1 i2 lc acc = acc @ [slice i1 (i2 + 1) d]" .
    moreover have "slice i1 (i2 + 1) d = drop i1 d"
      using True less.prems by (simp add: slice_def)
    moreover have "drop i1 d \<noteq> []"
      using less.prems by simp
    ultimately show ?thesis by simp
  next
    case not_last: False
    then have next_in: "i2 + 1 < length d"
      using less.prems by simp
    show ?thesis
    proof (cases "lc > 81 \<and> d ! i2 = c_space")
      case True
      let ?l = "slice i1 i2 d"
      have step: "wrap_loop d i1 i2 lc acc = wrap_loop d (i2 + 1) (i2 + 1) 1 (acc @ [?l])"
        using True not_last less.prems by (subst wrap_loop.simps) simp
      have "length d - (i2 + 1) < length d - i2"
        using less.prems by simp
      from less.hyps [OF this, of "i2 + 1" 1 "acc @ [?l]"] next_in
      obtain ls where ls: "wrap_loop d (i2 + 1) (i2 + 1) 1 (acc @ [?l]) = (acc @ [?l]) @ ls"
        "ls \<noteq> []" "[] \<notin> set ls" "join [c_space] ls = drop (i2 + 1) d"
        by auto
      have "i1 < i2"
        using True less.prems by arith
      then have "?l \<noteq> []"
        using less.prems by (simp add: slice_def)
      moreover have "join [c_space] (?l # ls) = drop i1 d"
        using ls(2,4) True drop_split_at [of i1 i2 d] less.prems by (simp add: join_Cons)
      ultimately have "wrap_loop d i1 i2 lc acc = acc @ (?l # ls) \<and> ?l # ls \<noteq> [] \<and>
          [] \<notin> set (?l # ls) \<and> join [c_space] (?l # ls) = drop i1 d"
        using step ls by simp
      then show ?thesis by blast
    next
      case False
      then have step: "wrap_loop d i1 i2 lc acc = wrap_loop d i1 (i2 + 1) (lc + 1) acc"
        using not_last less.prems by (subst wrap_loop.simps) auto
      have "length d - (i2 + 1) < length d - i2"
        using less.prems by simp
      from less.hyps [OF this, of i1 "lc + 1" acc] next_in less.prems
      show ?thesis
        unfolding step by simp
    qed
  qed
qed

lemma split_space_nonempty: "split_space s \<noteq> []"
  by (induction s) (auto split: list.splits)

lemma split_space_append: "split_space (a @ c_space # b) = split_space a @ split_space b"
proof (induction a)
  case Nil
  then show ?case by simp
next
  case (Cons x a)
  then show ?case
    using split_space_nonempty [of a] by (auto split: list.splits)
qed

lemma split_space_join:
  "ls \<noteq> [] \<Longrightarrow> split_space (join [c_space] ls) = concat (map split_space ls)"
proof (induction ls)
  case Nil
  then show ?case by simp
next
  case (Cons l ls)
  show ?case
  proof (cases "ls = []")
    case True
    then show ?thesis by simp
  next
    case False
    with Cons show ?thesis
      by (simp add: join_Cons split_space_append)
  qed
qed

text \<open>
  C4. The lines joined by single spaces are the text again: every cut is at a
  space, which is dropped, or at the end, and nothing else is removed or added. So
  the words of the lines, in order, are the words of the text, none split however
  long. No line is empty, and there is no line at all only for the empty text.
\<close>

theorem docstringwrap_words:
  "join [c_space] (docstringwrap docstring) = docstring \<and>
   [] \<notin> set (docstringwrap docstring) \<and>
   (docstringwrap docstring = [] \<longleftrightarrow> docstring = []) \<and>
   concat (map split_space (docstringwrap docstring)) =
     (if docstring = [] then [] else split_space docstring)"
proof (cases "docstring = []")
  case True
  then show ?thesis by (simp add: docstringwrap_def wrap_loop_done)
next
  case False
  then have "0 < length docstring" by simp
  from wrap_loop_lines [of 0 0 docstring 0 "[]"] this
  obtain ls where ls: "docstringwrap docstring = ls" "ls \<noteq> []" "[] \<notin> set ls"
    "join [c_space] ls = docstring"
    by (auto simp: docstringwrap_def)
  then have "concat (map split_space ls) = split_space docstring"
    using split_space_join [of ls] by simp
  with ls False show ?thesis by simp
qed

section \<open>The parameters\<close>

lemma handle_loop_cuts:
  assumes "k \<le> length ps" "l = count_char c_lt (take k ps)" "r = count_char c_gt (take k ps)"
  shows "handle_loop uw ps (enumerate k (drop k ps)) l r si acc =
           (case render_cuts uw ps si (filter (boundary ps) [k..<length ps]) of
              Inl e \<Rightarrow> Inl e
            | Inr new \<Rightarrow> Inr (acc @ new))"
  using assms
proof (induction "length ps - k" arbitrary: k l r si acc)
  case 0
  then show ?case by simp
next
  case (Suc n)
  then have k: "k < length ps" by simp
  have drop: "drop k ps = ps ! k # drop (Suc k) ps"
    using k by (simp add: Cons_nth_drop_Suc)
  have upt: "[k..<length ps] = k # [Suc k..<length ps]"
    using k by (simp add: upt_conv_Cons)
  have take: "take (Suc k) ps = take k ps @ [ps ! k]"
    using k by (simp add: take_Suc_conv_app_nth)
  have n: "n = length ps - Suc k" "Suc k \<le> length ps"
    using Suc.hyps(2) k by simp_all
  note IH = Suc.hyps(1) [OF n]
  show ?case
  proof (cases "ps ! k = c_lt")
    case True
    have "handle_loop uw ps (enumerate (Suc k) (drop (Suc k) ps)) (l + 1) r si acc =
        (case render_cuts uw ps si (filter (boundary ps) [Suc k..<length ps]) of
           Inl e \<Rightarrow> Inl e | Inr new \<Rightarrow> Inr (acc @ new))"
      by (rule IH) (simp_all add: take count_char_def True Suc.prems)
    then show ?thesis
      using True by (simp add: drop upt boundary_def)
  next
    case no_lt: False
    show ?thesis
    proof (cases "ps ! k = c_gt")
      case True
      have "handle_loop uw ps (enumerate (Suc k) (drop (Suc k) ps)) l (r + 1) si acc =
          (case render_cuts uw ps si (filter (boundary ps) [Suc k..<length ps]) of
             Inl e \<Rightarrow> Inl e | Inr new \<Rightarrow> Inr (acc @ new))"
        by (rule IH) (simp_all add: take count_char_def True Suc.prems)
      then show ?thesis
        using True by (simp add: drop upt boundary_def)
    next
      case no_gt: False
      have counts: "l = count_char c_lt (take (Suc k) ps)" "r = count_char c_gt (take (Suc k) ps)"
        using no_lt no_gt Suc.prems by (simp_all add: take count_char_def)
      show ?thesis
      proof (cases "boundary ps k")
        case True
        then have cond: "(ps ! k = c_comma \<and> l = r) \<or> k = length ps - 1"
          using Suc.prems by (simp add: boundary_def)
        let ?param = "slice si (k + (if k = length ps - 1 then 1 else 0)) ps"
        show ?thesis
        proof (cases "render_param uw ?param")
          case (Inl e)
          then show ?thesis
            using True cond no_lt no_gt by (simp add: drop upt)
        next
          case (Inr p)
          have "handle_loop uw ps (enumerate (Suc k) (drop (Suc k) ps)) l r (k + 2) (acc @ [p]) =
              (case render_cuts uw ps (k + 2) (filter (boundary ps) [Suc k..<length ps]) of
                 Inl e \<Rightarrow> Inl e | Inr new \<Rightarrow> Inr ((acc @ [p]) @ new))"
            by (rule IH) (rule counts)+
          then show ?thesis
            using True cond no_lt no_gt Inr by (simp add: drop upt split: sum.splits)
        qed
      next
        case False
        then have cond: "\<not> ((ps ! k = c_comma \<and> l = r) \<or> k = length ps - 1)"
          using Suc.prems no_lt no_gt by (simp add: boundary_def)
        have "handle_loop uw ps (enumerate (Suc k) (drop (Suc k) ps)) l r si acc =
            (case render_cuts uw ps si (filter (boundary ps) [Suc k..<length ps]) of
               Inl e \<Rightarrow> Inl e | Inr new \<Rightarrow> Inr (acc @ new))"
          by (rule IH) (rule counts)+
        then show ?thesis
          using False cond no_lt no_gt by (auto simp: drop upt)
      qed
    qed
  qed
qed

lemma handle_params_cuts:
  "handle_params uw ps = render_cuts uw ps 0 (filter (boundary ps) [0..<length ps])"
  using handle_loop_cuts [of 0 ps 0 0 uw 0 "[]"]
  by (simp add: handle_params_def count_char_def split: sum.splits)

lemma backtrack_first:
  "0 < e0 \<Longrightarrow> e0 \<le> n \<Longrightarrow> f e0 = Some r \<Longrightarrow> (\<forall>e. e0 < e \<and> e \<le> n \<longrightarrow> f e = None) \<Longrightarrow>
     backtrack f n = Some r"
proof (induction n)
  case 0
  then show ?case by simp
next
  case (Suc n)
  show ?case
  proof (cases "e0 = Suc n")
    case True
    with Suc.prems show ?thesis by simp
  next
    case False
    with Suc.prems have "f (Suc n) = None" "e0 \<le> n"
      by simp_all
    with Suc show ?thesis by simp
  qed
qed

lemma param_tail_hit:
  assumes "name \<noteq> []" "\<forall>c\<in>set name. is_word uw c"
  shows "param_tail uw (t @ c_space # name) (length t) = Some (t, name)"
proof -
  have run: "takeWhile (is_word uw) name = name" "dropWhile (is_word uw) name = []"
    using assms(2) by simp_all
  have rest: "drop (Suc (length t)) (t @ c_space # name) = name"
    by simp
  have cond: "length t < length (t @ c_space # name) \<and> (t @ c_space # name) ! length t = c_space"
    by simp
  show ?thesis
    unfolding param_tail_def Let_def rest run
    using cond assms(1) by (simp add: at_end_def)
qed

lemma param_tail_miss:
  assumes "\<forall>c\<in>set name. is_word uw c" "length t < e"
  shows "param_tail uw (t @ c_space # name) e = None"
proof (cases "e < length (t @ c_space # name)")
  case False
  then show ?thesis by (simp add: param_tail_def)
next
  case True
  then have "(t @ c_space # name) ! e = name ! (e - length t - 1)" "e - length t - 1 < length name"
    using assms(2) by (simp_all add: nth_append nth_Cons')
  then have "is_word uw ((t @ c_space # name) ! e)"
    using assms(1) by simp
  then have "(t @ c_space # name) ! e \<noteq> c_space"
    using is_word_special(1) by metis
  then show ?thesis by (simp add: param_tail_def)
qed

lemma search_param_type_name:
  assumes "t \<noteq> []" "c_newline \<notin> set t" "name \<noteq> []" "\<forall>c\<in>set name. is_word uw c"
  shows "search_param uw (t @ c_space # name) = Some (t, name)"
proof -
  let ?s = "t @ c_space # name"
  have "c_newline \<notin> set name"
    using assms(4) is_word_special(4) by blast
  then have tw: "takeWhile (\<lambda>c. c \<noteq> c_newline) ?s = ?s"
    using assms(2) by (auto simp: takeWhile_eq_all_conv)
  have "match_param_at uw ?s = backtrack (param_tail uw ?s) (length ?s)"
    unfolding match_param_at_def tw by (rule refl)
  also have "\<dots> = Some (t, name)"
  proof (rule backtrack_first)
    show "0 < length t" using assms(1) by simp
    show "length t \<le> length ?s" by simp
    show "param_tail uw ?s (length t) = Some (t, name)"
      using assms(3,4) by (rule param_tail_hit)
    show "\<forall>e. length t < e \<and> e \<le> length ?s \<longrightarrow> param_tail uw ?s e = None"
      using assms(4) param_tail_miss by blast
  qed
  finally have "match_param_at uw ?s = Some (t, name)" .
  moreover obtain c cs where "?s = c # cs"
    by (cases ?s) auto
  ultimately show ?thesis
    by (metis option.simps(5) search_param.simps(2))
qed

lemma render_param_type_name:
  assumes "t \<noteq> []" "c_newline \<notin> set t" "name \<noteq> []" "\<forall>c\<in>set name. is_word uw c"
    "type_conversion t = Inr T"
  shows "render_param uw (t @ [c_space] @ name) = Inr (rename name @ py '': '' @ T)"
  using search_param_type_name [OF assms(1-4)] assms(5)
  by (simp add: render_param_def)

lemma render_param_reserved:
  assumes "t \<noteq> []" "c_newline \<notin> set t" "type_conversion t = Inr T"
  shows "render_param uw (t @ [c_space] @ py ''str'') = Inr (py ''string: '' @ T)"
    and "render_param uw (t @ [c_space] @ py ''len'') = Inr (py ''length: '' @ T)"
    and "render_param uw (t @ [c_space] @ py ''map'') = Inr (py ''mapping: '' @ T)"
proof -
  have w: "\<forall>c\<in>set (py ''str''). is_word uw c" "\<forall>c\<in>set (py ''len''). is_word uw c"
    "\<forall>c\<in>set (py ''map''). is_word uw c"
    by (simp_all add: py_def is_word_def ascii_word_def)
  have ne: "py ''str'' \<noteq> []" "py ''len'' \<noteq> []" "py ''map'' \<noteq> []"
    by (simp_all add: py_def)
  have r: "rename (py ''str'') = py ''string''" "rename (py ''len'') = py ''length''"
    "rename (py ''map'') = py ''mapping''"
    by (simp_all add: rename_def py_def)
  show "render_param uw (t @ [c_space] @ py ''str'') = Inr (py ''string: '' @ T)"
    using render_param_type_name [OF assms(1,2) ne(1) w(1) assms(3)] r(1) by (simp add: py_def)
  show "render_param uw (t @ [c_space] @ py ''len'') = Inr (py ''length: '' @ T)"
    using render_param_type_name [OF assms(1,2) ne(2) w(2) assms(3)] r(2) by (simp add: py_def)
  show "render_param uw (t @ [c_space] @ py ''map'') = Inr (py ''mapping: '' @ T)"
    using render_param_type_name [OF assms(1,2) ne(3) w(3) assms(3)] r(3) by (simp add: py_def)
qed

text \<open>
  C3. The parameter string of the specification gives two parameters, renamed. In
  general the parameters are the renderings of the pieces cut at the boundaries:
  a comma cuts only where the counts of \<open><\<close> and \<open>>\<close> before it are equal. A piece
  \<open><type> str\<close>, \<open><type> len\<close> or \<open><type> map\<close> is rendered with the name \<open>string\<close>,
  \<open>length\<close> or \<open>mapping\<close>.
\<close>

theorem handle_params_boundaries:
  "handle_params uw (py ''Map<String, Integer> map, int len'') =
     Inr [py ''mapping: Dict[str, int]'', py ''length: int''] \<and>
   handle_params uw paramstr =
     render_cuts uw paramstr 0 (filter (boundary paramstr) [0..<length paramstr]) \<and>
   (t \<noteq> [] \<and> c_newline \<notin> set t \<and> type_conversion t = Inr T \<longrightarrow>
      render_param uw (t @ [c_space] @ py ''str'') = Inr (py ''string: '' @ T) \<and>
      render_param uw (t @ [c_space] @ py ''len'') = Inr (py ''length: '' @ T) \<and>
      render_param uw (t @ [c_space] @ py ''map'') = Inr (py ''mapping: '' @ T))"
proof (intro conjI impI)
  show "handle_params uw (py ''Map<String, Integer> map, int len'') =
     Inr [py ''mapping: Dict[str, int]'', py ''length: int'']"
    by code_simp
  show "handle_params uw paramstr =
     render_cuts uw paramstr 0 (filter (boundary paramstr) [0..<length paramstr])"
    by (rule handle_params_cuts)
next
  assume "t \<noteq> [] \<and> c_newline \<notin> set t \<and> type_conversion t = Inr T"
  then have t: "t \<noteq> []" "c_newline \<notin> set t" "type_conversion t = Inr T"
    by simp_all
  show "render_param uw (t @ [c_space] @ py ''str'') = Inr (py ''string: '' @ T)"
    using t by (rule render_param_reserved)
  show "render_param uw (t @ [c_space] @ py ''len'') = Inr (py ''length: '' @ T)"
    using t by (rule render_param_reserved)
  show "render_param uw (t @ [c_space] @ py ''map'') = Inr (py ''mapping: '' @ T)"
    using t by (rule render_param_reserved)
qed

theorem handle_params_boundaries_witness:
  "py ''int'' \<noteq> [] \<and> c_newline \<notin> set (py ''int'') \<and>
   type_conversion (py ''int'') = Inr (py ''int'') \<and>
   render_param no_unicode_word (py ''int len'') = Inr (py ''length: int'') \<and>
   handle_params no_unicode_word (py ''Map<String, Integer> map, int len'') =
     Inr [py ''mapping: Dict[str, int]'', py ''length: int'']"
proof -
  have t: "type_conversion (py ''int'') = Inr (py ''int'')"
    by code_simp
  show ?thesis
    using handle_params_boundaries
            [of no_unicode_word "py ''Map<String, Integer> map, int len''" "py ''int''" "py ''int''"]
      t
    by (simp add: py_def)
qed

section \<open>The return type\<close>

lemma dropWhile_no_lparen:
  "c_lparen \<notin> set xs \<Longrightarrow> \<not> P y \<Longrightarrow> y \<noteq> c_lparen \<Longrightarrow>
     \<not> startswith (dropWhile P (xs @ y # ys)) [c_lparen]"
  by (induction xs) auto

lemma match_name_at_none:
  "c_lparen \<notin> set xs \<Longrightarrow> \<not> is_word uw y \<Longrightarrow> y \<noteq> c_lparen \<Longrightarrow>
     match_name_at uw (xs @ y # ys) = None"
  using dropWhile_no_lparen [of xs "is_word uw" y ys]
  by (simp add: match_name_at_def Let_def)

lemma search_name_skip:
  "c_lparen \<notin> set xs \<Longrightarrow> \<not> is_word uw y \<Longrightarrow> y \<noteq> c_lparen \<Longrightarrow>
     search_name uw i (xs @ y # zs) = search_name uw (i + length xs + 1) zs"
proof (induction xs arbitrary: i)
  case Nil
  then show ?case
    using match_name_at_none [of "[]" uw y zs] by simp
next
  case (Cons x xs)
  then have "match_name_at uw ((x # xs) @ y # zs) = None"
    by (intro match_name_at_none)
  with Cons show ?case by simp
qed

lemma match_name_at_name:
  assumes "name \<noteq> []" "\<forall>c\<in>set name. is_word uw c"
  shows "match_name_at uw (name @ c_lparen # rest) = Some name"
proof -
  have "takeWhile (is_word uw) (name @ c_lparen # rest) = name"
    using assms(2) by (simp add: takeWhile_append2)
  moreover have "dropWhile (is_word uw) (name @ c_lparen # rest) = c_lparen # rest"
    using assms(2) by (simp add: dropWhile_append2)
  ultimately show ?thesis
    using assms(1) by (simp add: match_name_at_def)
qed

lemma search_name_name:
  assumes "name \<noteq> []" "\<forall>c\<in>set name. is_word uw c"
  shows "search_name uw i (name @ c_lparen # rest) = Some (i, name)"
proof -
  obtain c cs where "name = c # cs"
    using assms(1) by (cases name) auto
  then show ?thesis
    using match_name_at_name [OF assms, of rest] by simp
qed

lemma strip_trailing_space: "strip (rt @ [c_space]) = strip rt"
proof -
  have sp: "isspace c_space"
    by (simp add: isspace_def)
  show ?thesis
  proof (cases "\<forall>c\<in>set rt. isspace c")
    case True
    have a: "dropWhile isspace (rt @ [c_space]) = []"
      unfolding dropWhile_eq_Nil_conv using True sp by simp
    have b: "dropWhile isspace rt = []"
      unfolding dropWhile_eq_Nil_conv using True by simp
    show ?thesis
      unfolding strip_def a b by simp
  next
    case False
    then obtain x where "x \<in> set rt" "\<not> isspace x"
      by blast
    then have "dropWhile isspace (rt @ [c_space]) = dropWhile isspace rt @ [c_space]"
      by (rule dropWhile_append1)
    then show ?thesis
      using sp by (simp add: strip_def)
  qed
qed

lemma convert_shape:
  assumes "c_lparen \<notin> set rt" "c_rparen \<notin> set rt"
    "name \<noteq> []" "\<forall>c\<in>set name. is_word uw c" "c_rparen \<notin> set ps"
    "type_conversion (strip rt) = Inr rettype" "handle_params uw ps = Inr params"
  shows "convert uw (rt @ [c_space] @ name @ [c_lparen] @ ps @ [c_rparen]) =
           Inr (py ''def '' @ name @ py ''('' @ join (py '', '') params @ py '') -> '' @
                rettype @ py '':\<newline>    pass'')"
proof -
  let ?d = "rt @ [c_space] @ name @ [c_lparen] @ ps @ [c_rparen]"
  have name_chars: "c_lparen \<notin> set name" "c_rparen \<notin> set name"
    using assms(4) is_word_special by blast+
  have "search_name uw 0 (rt @ c_space # (name @ c_lparen # (ps @ [c_rparen]))) =
      search_name uw (0 + length rt + 1) (name @ c_lparen # (ps @ [c_rparen]))"
    using assms(1) by (intro search_name_skip) simp_all
  then have search: "search_name uw 0 ?d = Some (length rt + 1, name)"
    using search_name_name [OF assms(3,4)] by simp
  have before: "take (length rt + 1) ?d = rt @ [c_space]"
    by simp
  have "index ((rt @ c_space # name) @ c_lparen # (ps @ [c_rparen])) c_lparen =
      Some (length (rt @ c_space # name))"
    using assms(1) name_chars by (intro index_first) simp
  then have lp: "index ?d c_lparen = Some (length (rt @ c_space # name))"
    by simp
  have "index ((rt @ c_space # name @ c_lparen # ps) @ c_rparen # []) c_rparen =
      Some (length (rt @ c_space # name @ c_lparen # ps))"
    using assms(2,5) name_chars by (intro index_first) simp
  then have rp: "index ?d c_rparen = Some (length (rt @ c_space # name @ c_lparen # ps))"
    by simp
  have "slice (length (rt @ c_space # name @ [c_lparen]))
      (length (rt @ c_space # name @ [c_lparen]) + length ps)
      ((rt @ c_space # name @ [c_lparen]) @ ps @ [c_rparen]) = ps"
    by (rule slice_middle)
  then have params: "slice (length (rt @ c_space # name) + 1)
      (length (rt @ c_space # name @ c_lparen # ps)) ?d = ps"
    by (simp add: add.assoc)
  have "strip (take (length rt + 1) ?d) = strip rt"
    unfolding before by (rule strip_trailing_space)
  then have rettype: "type_conversion (strip (take (length rt + 1) ?d)) = Inr rettype"
    using assms(6) by simp
  show ?thesis
    unfolding convert_def search option.case prod.case rettype sum.case lp rp params assms(7)
    by (rule refl)
qed

text \<open>
  C1, as amended. The constructor drops the declaration up to its first space, so
  the declarations are of the form \<open><modifier> <return type> <name>(<params>)\<close>.
  For such a one (the modifier without a space, no parenthesis before the name)
  everything between the first space and the name, trimmed, is the raw return
  type; when \<open>type_conversion\<close> and \<open>handle_params\<close> succeed, the stub is
  \<open>def <name>(<params>) -> <mapped return type>:\<close> with the body \<open>pass\<close>.
\<close>

theorem convert_return_type:
  assumes "c_space \<notin> set m" "c_rparen \<notin> set m" "c_lparen \<notin> set rt" "c_rparen \<notin> set rt"
    "name \<noteq> []" "\<forall>c\<in>set name. is_word uw c" "c_rparen \<notin> set ps"
    "type_conversion (strip rt) = Inr rettype" "handle_params uw ps = Inr params"
  shows "Converter_convert uw
           (m @ [c_space] @ rt @ [c_space] @ name @ [c_lparen] @ ps @ [c_rparen] @ rest) =
         Inr (py ''def '' @ name @ py ''('' @ join (py '', '') params @ py '') -> '' @
              rettype @ py '':\<newline>    pass'')"
proof -
  let ?self_dec = "rt @ [c_space] @ name @ [c_lparen] @ ps @ [c_rparen]"
  let ?dec = "m @ [c_space] @ ?self_dec @ rest"
  have name_chars: "c_rparen \<notin> set name"
    using assms(6) is_word_special by blast
  have sp: "index ?dec c_space = Some (length m)"
    using assms(1) index_first [of c_space m] by simp
  have "index ((m @ c_space # rt @ c_space # name @ c_lparen # ps) @ c_rparen # rest) c_rparen =
      Some (length (m @ c_space # rt @ c_space # name @ c_lparen # ps))"
    using assms(2,4,7) name_chars by (intro index_first) simp
  then have rp: "index ?dec c_rparen =
      Some (length (m @ c_space # rt @ c_space # name @ c_lparen # ps))"
    by simp
  have "slice (length (m @ [c_space])) (length (m @ [c_space]) + length ?self_dec)
      ((m @ [c_space]) @ ?self_dec @ rest) = ?self_dec"
    by (rule slice_middle)
  then have "slice (length m + 1)
      (length (m @ c_space # rt @ c_space # name @ c_lparen # ps) + 1) ?dec = ?self_dec"
    by simp
  then have "Converter ?dec = Inr ?self_dec"
    unfolding Converter_def sp rp by simp
  then have "Converter_convert uw ?dec = convert uw ?self_dec"
    by (simp add: Converter_convert_def)
  also have "\<dots> = Inr (py ''def '' @ name @ py ''('' @ join (py '', '') params @ py '') -> '' @
              rettype @ py '':\<newline>    pass'')"
    using assms by (intro convert_shape)
  finally show ?thesis
    by simp
qed

theorem convert_return_type_witness:
  "type_conversion (strip (py ''int'')) = Inr (py ''int'') \<and>
   handle_params no_unicode_word (py ''int a'') = Inr [py ''a: int''] \<and>
   Converter_convert no_unicode_word (py ''public int foo(int a) {'') =
     Inr (py ''def foo(a: int) -> int:\<newline>    pass'')"
proof -
  have rettype: "type_conversion (strip (py ''int'')) = Inr (py ''int'')"
    by code_simp
  have params: "handle_params no_unicode_word (py ''int a'') = Inr [py ''a: int'']"
    by code_simp
  have name: "\<forall>c\<in>set (py ''foo''). is_word no_unicode_word c"
    by (simp add: py_def is_word_def ascii_word_def)
  have "Converter_convert no_unicode_word
      (py ''public'' @ [c_space] @ py ''int'' @ [c_space] @ py ''foo'' @ [c_lparen] @
       py ''int a'' @ [c_rparen] @ py '' {'') =
    Inr (py ''def '' @ py ''foo'' @ py ''('' @ join (py '', '') [py ''a: int''] @ py '') -> '' @
         py ''int'' @ py '':\<newline>    pass'')"
    by (rule convert_return_type [OF _ _ _ _ _ name _ rettype params]) (simp_all add: py_def)
  then show ?thesis
    using rettype params by (simp add: py_def)
qed

text \<open>
  C1 as stated fails on its own example: in \<open>int foo(int a)\<close> the return type is
  the part dropped by the constructor, and the annotation is empty.
\<close>

theorem convert_return_type_counterexample:
  "Converter_convert no_unicode_word (py ''int foo(int a)'') =
     Inr (py ''def foo(a: int) -> :\<newline>    pass'')"
  by code_simp

end
